theory Spec2Isabelle
  imports Main "HOL-Library.AList"
begin

section \<open>The bubblejail helper: a shallow embedding of \<open>bubblejail_helper.py\<close>\<close>

text \<open>
  The helper talks to the operating system, to asyncio and to the json module all the
  time. In this embedding every such call is an explicit step of a trace, and every answer
  from outside is an explicit input: a script of the results that the successive calls
  return, or a function of the library. A script is finite, so a loop that is still
  running when its script is used up is reported as not having returned (\<open>Pending\<close>, or
  the flag \<open>False\<close> next to the trace); nothing is said about what it does afterwards.

  Not modelled: the diagnostic \<open>print\<close> calls under \<open>__debug__\<close>, which change nothing
  else; floating point numbers in JSON values; exceptions that the operating system could
  raise in \<open>kill\<close> and in reading \<open>/proc/self/task/*/children\<close>; a cancellation
  arriving in a connection handler.
\<close>

subsection \<open>JSON values, Python exceptions and the library\<close>

text \<open>
  The values that \<open>json.loads\<close> builds. A \<open>dict\<close> is the list of its items in
  insertion order; \<open>map_of\<close> looks a key up, \<open>AList.update\<close> is the assignment
  \<open>d[k] = v\<close> and \<open>AList.delete\<close> is \<open>d.pop(k)\<close>.
\<close>

datatype json =
    JNull
  | JBool bool
  | JInt int
  | JStr string
  | JList "json list"
  | JDict "(string \<times> json) list"

text \<open>
  The exceptions that matter here, without their messages. \<open>Raised name\<close> stands for
  any other exception that a library call raises (\<open>JSONDecodeError\<close>,
  \<open>FileNotFoundError\<close>, \<open>UnicodeDecodeError\<close>, ...).
\<close>

datatype py_exn =
    KeyError string
  | TypeError
  | IndexError
  | Raised string

type_synonym bytes = string

text \<open>
  The library functions that the codec and the executor call are parameters of the
  model: \<open>json.dumps\<close>, \<open>json.loads\<close> (on \<open>bytes\<close>), \<open>str.encode\<close> and
  \<open>bytes.decode\<close>.
\<close>

record python_lib =
  json_dumps :: "json \<Rightarrow> string"
  json_loads :: "bytes \<Rightarrow> py_exn + json"
  str_encode :: "string \<Rightarrow> bytes"
  bytes_decode :: "bytes \<Rightarrow> py_exn + string"

text \<open>The truth value of a JSON value in a Python condition.\<close>

fun truthy :: "json \<Rightarrow> bool" where
  "truthy JNull = False"
| "truthy (JBool b) = b"
| "truthy (JInt i) = (i \<noteq> 0)"
| "truthy (JStr s) = (s \<noteq> [])"
| "truthy (JList vs) = (vs \<noteq> [])"
| "truthy (JDict kvs) = (kvs \<noteq> [])"

subsection \<open>Request model and protocol codec\<close>

text \<open>
  The two request classes. The fields are set by the constructors only, so an object is
  the tuple of the constructor's arguments: \<open>RequestPing request_id\<close> and
  \<open>RequestRun request_id args_to_run wait_response\<close>; \<open>request_method\<close> (the field
  \<open>method\<close>) and \<open>params\<close> are what the constructors hand to
  \<open>JsonRpcRequest.__init__\<close>. Nothing checks the types of the
  arguments at run time, so each of them is any JSON value.
\<close>

datatype request =
    RequestPing json
  | RequestRun json json json

fun request_id :: "request \<Rightarrow> json" where
  "request_id (RequestPing rid) = rid"
| "request_id (RequestRun rid args wait) = rid"

fun request_method :: "request \<Rightarrow> string" where
  "request_method (RequestPing rid) = ''ping''"
| "request_method (RequestRun rid args wait) = ''run''"

fun params :: "request \<Rightarrow> json" where
  "params (RequestPing rid) = JNull"
| "params (RequestRun rid args wait) = JDict [(''args_to_run'', args), (''wait_response'', wait)]"

definition dict_to_json_byte_line :: "python_lib \<Rightarrow> json \<Rightarrow> bytes" where
  "dict_to_json_byte_line lib rpc_dict = str_encode lib (json_dumps lib rpc_dict @ ''\<newline>'')"

text \<open>
  \<open>_json_byte_line_to_dict\<close>: subscripting a decoded value that is not a \<open>dict\<close> with
  \<open>'id'\<close> raises \<open>TypeError\<close>, a \<open>dict\<close> without the key raises \<open>KeyError\<close>.
\<close>

definition json_byte_line_to_dict :: "python_lib \<Rightarrow> bytes \<Rightarrow> py_exn + (string \<times> json) list" where
  "json_byte_line_to_dict lib data =
     (case json_loads lib data of
        Inl e \<Rightarrow> Inl e
      | Inr (JDict decoded_dict) \<Rightarrow>
          (case map_of decoded_dict ''id'' of
             None \<Rightarrow> Inl (KeyError ''id'')
           | Some v \<Rightarrow> Inr (AList.delete ''id'' (AList.update ''request_id'' v decoded_dict)))
      | Inr _ \<Rightarrow> Inl TypeError)"

definition to_json_byte_line :: "python_lib \<Rightarrow> request \<Rightarrow> bytes" where
  "to_json_byte_line lib r =
     dict_to_json_byte_line lib
       (JDict [(''id'', request_id r), (''method'', JStr (request_method r)), (''params'', params r)])"

definition get_reponse_bytes :: "python_lib \<Rightarrow> request \<Rightarrow> json \<Rightarrow> bytes" where
  "get_reponse_bytes lib r rpc_data =
     dict_to_json_byte_line lib (JDict [(''id'', request_id r), (''result'', rpc_data)])"

definition response_ping :: "python_lib \<Rightarrow> request \<Rightarrow> bytes" where
  "response_ping lib r = get_reponse_bytes lib r (JList [JStr ''pong''])"

definition response_run :: "python_lib \<Rightarrow> request \<Rightarrow> string \<Rightarrow> bytes" where
  "response_run lib r text = get_reponse_bytes lib r (JDict [(''return'', JStr text)])"

text \<open>
  The call \<open>RequestRun(request_id=request_id, **params)\<close>. It raises \<open>TypeError\<close>
  when \<open>params\<close> is not a mapping, when it has a key that is not a parameter of the
  constructor or that is \<open>request_id\<close> once more, and when \<open>args_to_run\<close> is missing;
  \<open>wait_response\<close> defaults to \<open>False\<close>.
\<close>

definition RequestRun_init :: "json \<Rightarrow> json \<Rightarrow> py_exn + request" where
  "RequestRun_init rid kwargs =
     (case kwargs of
        JDict kw \<Rightarrow>
          if list_ex (\<lambda>kv. fst kv \<notin> set [''args_to_run'', ''wait_response'']) kw then Inl TypeError
          else
            (case map_of kw ''args_to_run'' of
               None \<Rightarrow> Inl TypeError
             | Some args \<Rightarrow>
                 Inr (RequestRun rid args
                        (case map_of kw ''wait_response'' of None \<Rightarrow> JBool False | Some w \<Rightarrow> w)))
      | _ \<Rightarrow> Inl TypeError)"

definition request_selector :: "python_lib \<Rightarrow> bytes \<Rightarrow> py_exn + request" where
  "request_selector lib data =
     (case json_byte_line_to_dict lib data of
        Inl e \<Rightarrow> Inl e
      | Inr decoded_dict \<Rightarrow>
          (case map_of decoded_dict ''method'' of
             None \<Rightarrow> Inl (KeyError ''method'')
           | Some m \<Rightarrow>
          (case map_of decoded_dict ''request_id'' of
             None \<Rightarrow> Inl (KeyError ''request_id'')
           | Some rid \<Rightarrow>
          (case map_of decoded_dict ''params'' of
             None \<Rightarrow> Inl (KeyError ''params'')
           | Some ps \<Rightarrow>
               if m = JStr ''ping'' then Inr (RequestPing rid)
               else if m = JStr ''run'' then RequestRun_init rid ps
               else Inl TypeError))))"

subsection \<open>Process executor: \<open>run_command\<close>\<close>

text \<open>The constants of the subprocess module.\<close>

definition PIPE :: int where "PIPE = - 1"
definition STDOUT :: int where "STDOUT = - 2"
definition DEVNULL :: int where "DEVNULL = - 3"

text \<open>
  The awaited calls of the executor: \<open>create_subprocess_exec\<close> with the argument vector
  and the keywords \<open>stdout\<close>, \<open>stderr\<close> and \<open>stdin\<close> (\<open>None\<close> when the keyword is not
  given, so the child inherits the stream), \<open>p.wait()\<close> and \<open>p.communicate()\<close>. The
  last two return when the process has exited; \<open>communicate\<close> reads the pipe to its end
  first.
\<close>

datatype exec_step =
    Create_subprocess_exec json "int option" "int option" "int option"
  | Process_wait
  | Process_communicate

text \<open>
  What the operating system makes of the spawn: an exception, or a process, given with
  the bytes that it writes to its standard output and error.
\<close>

datatype process = Spawn_raises py_exn | Process bytes

definition run_command ::
  "python_lib \<Rightarrow> process \<Rightarrow> json \<Rightarrow> int option \<Rightarrow> exec_step list \<times> (py_exn + string option)" where
  "run_command lib os_process args_to_run std_in_out_mode =
     (let spawn =
            (if std_in_out_mode = Some DEVNULL then
               Create_subprocess_exec args_to_run (Some DEVNULL) (Some DEVNULL) (Some DEVNULL)
             else if std_in_out_mode = Some PIPE then
               Create_subprocess_exec args_to_run (Some PIPE) (Some STDOUT) (Some PIPE)
             else Create_subprocess_exec args_to_run None None None)
      in case os_process of
           Spawn_raises e \<Rightarrow> ([spawn], Inl e)
         | Process stdout_data \<Rightarrow>
             if std_in_out_mode = None then ([spawn, Process_wait], Inr None)
             else if std_in_out_mode = Some PIPE then
               (case bytes_decode lib stdout_data of
                  Inl e \<Rightarrow> ([spawn, Process_communicate], Inl e)
                | Inr text \<Rightarrow> ([spawn, Process_communicate], Inr (Some text)))
             else ([spawn], Inr None))"

fun awaits_exit :: "exec_step \<Rightarrow> bool" where
  "awaits_exit Process_wait = True"
| "awaits_exit Process_communicate = True"
| "awaits_exit (Create_subprocess_exec args out err inp) = False"

subsection \<open>Connection handler: \<open>client_handler\<close>\<close>

text \<open>How a coroutine ends: it returns, it raises, or it is still waiting for input.\<close>

datatype outcome = Returned | Raises py_exn | Pending

datatype handler_step =
    Readline bytes
  | Executor exec_step
  | Writer_write bytes
  | Writer_drain
  | Writer_close
  | Writer_wait_closed

text \<open>
  The script of a connection pairs each line that \<open>readline\<close> returns (the empty line
  at the end of the stream) with what the operating system makes of the process that a
  run request on that line spawns.
\<close>

fun client_handler :: "python_lib \<Rightarrow> (bytes \<times> process) list \<Rightarrow> handler_step list \<times> outcome" where
  "client_handler lib [] = ([], Pending)"
| "client_handler lib ((line, os_process) # script) =
     (if line = [] then ([Readline line, Writer_close, Writer_wait_closed], Returned)
      else
        case request_selector lib line of
          Inl e \<Rightarrow> ([Readline line], Raises e)
        | Inr (RequestPing rid) \<Rightarrow>
            (let (tr, out) = client_handler lib script
             in (Readline line # Writer_write (response_ping lib (RequestPing rid)) # Writer_drain # tr, out))
        | Inr (RequestRun rid args_to_run wait_response) \<Rightarrow>
            (case run_command lib os_process args_to_run
                    (if truthy wait_response then Some PIPE else None) of
               (steps, Inl e) \<Rightarrow> (Readline line # map Executor steps, Raises e)
             | (steps, Inr None) \<Rightarrow>
                 (let (tr, out) = client_handler lib script
                  in (Readline line # map Executor steps @ tr, out))
             | (steps, Inr (Some run_stdout)) \<Rightarrow>
                 (let (tr, out) = client_handler lib script
                  in (Readline line # map Executor steps @
                        Writer_write (response_run lib (RequestRun rid args_to_run wait_response) run_stdout) #
                        Writer_drain # tr, out))))"

subsection \<open>Reaper: \<open>handle_children\<close>\<close>

type_synonym pid = int

text \<open>
  What \<open>waitpid(-1, WNOHANG)\<close> and \<open>wait3(WNOHANG)\<close> give: a pid with a status (pid 0
  when children exist but none has exited), or the exception \<open>ChildProcessError\<close> when
  the process has no children at all.
\<close>

datatype wait_result = Wait_returns pid int | ChildProcessError

datatype reaper_step = Waitpid wait_result

text \<open>
  The loop of the reaper on the script of the results of \<open>waitpid\<close>. The flag says
  whether the function has returned.
\<close>

fun handle_children :: "wait_result list \<Rightarrow> reaper_step list \<times> bool" where
  "handle_children [] = ([], False)"
| "handle_children (ChildProcessError # ws) = ([Waitpid ChildProcessError], True)"
| "handle_children (Wait_returns exit_pid exit_code # ws) =
     (if (exit_pid, exit_code) = (0, 0) then ([Waitpid (Wait_returns exit_pid exit_code)], True)
      else if exit_pid = 0 then ([Waitpid (Wait_returns exit_pid exit_code)], True)
      else
        (let (tr, returned) = handle_children ws
         in (Waitpid (Wait_returns exit_pid exit_code) # tr, returned)))"

text \<open>A result of \<open>waitpid\<close> that is the exit record of a child.\<close>

fun is_reaped :: "wait_result \<Rightarrow> bool" where
  "is_reaped (Wait_returns exit_pid exit_code) = (exit_pid \<noteq> 0)"
| "is_reaped ChildProcessError = False"

subsection \<open>Forced terminator: \<open>terminate_children\<close>\<close>

datatype signal = SIGTERM | SIGKILL

text \<open>
  The two variables that \<open>signal_all_children\<close> shares with its enclosing function.
\<close>

record terminator_state =
  signal_counter :: nat
  pids_sigtermed :: "pid set"

text \<open>
  The inner loop over the pids of one \<open>children\<close> file. The result is the new set of
  pids that were sent SIGTERM and the \<open>kill\<close> calls made, in order.
\<close>

fun signal_pids :: "nat \<Rightarrow> pid set \<Rightarrow> pid list \<Rightarrow> pid set \<times> (pid \<times> signal) list" where
  "signal_pids c termed [] = (termed, [])"
| "signal_pids c termed (p # ps) =
     (if c > 20 then
        (let (termed', ks) = signal_pids c termed ps in (termed', (p, SIGKILL) # ks))
      else if p \<notin> termed then
        (let (termed', ks) = signal_pids c (insert p termed) ps in (termed', (p, SIGTERM) # ks))
      else signal_pids c termed ps)"

text \<open>The outer loop over the directories of \<open>/proc/self/task/\<close>.\<close>

fun signal_task_dirs :: "nat \<Rightarrow> pid set \<Rightarrow> pid list list \<Rightarrow> pid set \<times> (pid \<times> signal) list" where
  "signal_task_dirs c termed [] = (termed, [])"
| "signal_task_dirs c termed (d # ds) =
     (let (termed1, ks1) = signal_pids c termed d;
          (termed2, ks2) = signal_task_dirs c termed1 ds
      in (termed2, ks1 @ ks2))"

text \<open>
  \<open>signal_all_children\<close>. The operating system is the function \<open>proc\<close>: \<open>proc n\<close> is what
  the \<open>n\<close>-th call finds in \<open>/proc/self/task/*/children\<close>, one list of pids for each task
  directory. The counter is incremented before the files are read, so the \<open>n\<close>-th call
  runs with \<open>signal_counter = n\<close>.
\<close>

definition signal_all_children ::
  "(nat \<Rightarrow> pid list list) \<Rightarrow> terminator_state \<Rightarrow> terminator_state \<times> (pid \<times> signal) list" where
  "signal_all_children proc st =
     (let c = signal_counter st + 1;
          (termed, ks) = signal_task_dirs c (pids_sigtermed st) (proc c)
      in (\<lparr>signal_counter = c, pids_sigtermed = termed\<rparr>, ks))"

text \<open>
  The steps of \<open>terminate_children\<close>: one call of \<open>signal_all_children\<close> with the signals
  it sent, one call of \<open>wait3\<close> with its result, the half second of \<open>sync_sleep\<close> (in
  milliseconds), and the cancellation of the task that runs the helper.
\<close>

datatype terminator_step =
    Broadcast "(pid \<times> signal) list"
  | Wait3 wait_result
  | Sync_sleep nat
  | Cancel_run_helper_task

text \<open>
  The \<open>while True\<close> loop, on the script of the results of \<open>wait3\<close>. The flag says
  whether the loop was left by \<open>break\<close>.
\<close>

fun reap_loop ::
  "(nat \<Rightarrow> pid list list) \<Rightarrow> terminator_state \<Rightarrow> wait_result list \<Rightarrow> terminator_step list \<times> bool" where
  "reap_loop proc st [] = ([], False)"
| "reap_loop proc st (ChildProcessError # ws) = ([Wait3 ChildProcessError], True)"
| "reap_loop proc st (Wait_returns pid_reaped status # ws) =
     (if pid_reaped = 0 then
        (let (st', ks) = signal_all_children proc st;
             (tr, left) = reap_loop proc st' ws
         in (Wait3 (Wait_returns pid_reaped status) # Sync_sleep 500 # Broadcast ks # tr, left))
      else
        (let (tr, left) = reap_loop proc st ws
         in (Wait3 (Wait_returns pid_reaped status) # tr, left)))"

definition terminate_children ::
  "(nat \<Rightarrow> pid list list) \<Rightarrow> wait_result list \<Rightarrow> terminator_step list \<times> bool" where
  "terminate_children proc ws =
     (let (st, ks) = signal_all_children proc \<lparr>signal_counter = 0, pids_sigtermed = {}\<rparr>;
          (tr, left) = reap_loop proc st ws
      in (Broadcast ks # tr @ (if left then [Cancel_run_helper_task] else []), left))"

text \<open>The signals of the successive calls of \<open>signal_all_children\<close> in a trace.\<close>

fun broadcasts :: "terminator_step list \<Rightarrow> (pid \<times> signal) list list" where
  "broadcasts [] = []"
| "broadcasts (Broadcast ks # tr) = ks # broadcasts tr"
| "broadcasts (_ # tr) = broadcasts tr"

text \<open>The number of failed collection attempts made before the loop is left.\<close>

fun failed_attempts :: "wait_result list \<Rightarrow> nat" where
  "failed_attempts [] = 0"
| "failed_attempts (ChildProcessError # ws) = 0"
| "failed_attempts (Wait_returns p s # ws) = (if p = 0 then 1 else 0) + failed_attempts ws"

subsection \<open>Helper state\<close>

text \<open>
  The fields of \<open>BubblejailHelper\<close>. Of a task only \<open>done()\<close> is read, of the server
  only whether there is one, and an \<open>Event\<close> is its flag.
\<close>

datatype task = Task_pending | Task_done

datatype server = Server_listening | Server_closed

record helper =
  startup_args :: "string list"
  server :: "server option"
  terminated :: bool
  terminator_look_for_command :: "string option"
  terminator_pool_timer :: nat
  termninator_watcher_task :: "task option"
  ready_event :: bool

subsection \<open>Process tree view\<close>

text \<open>
  What one poll of the watcher finds: the contents of the \<open>children\<close> file of every
  directory of \<open>/proc/self/task/\<close>, and the entries of \<open>/proc\<close>, each with its name and
  the contents of its \<open>stat\<close> file (\<open>None\<close> when opening it raises
  \<open>FileNotFoundError\<close>).
\<close>

record proc_view =
  task_children :: "string list"
  proc_entries :: "(string \<times> string option) list"

text \<open>
  \<open>str.split\<close> without a separator splits at runs of white space and \<open>str.isnumeric\<close>
  asks for digits; both are given for ASCII, which is what \<open>/proc\<close> holds.
\<close>

definition is_space :: "char \<Rightarrow> bool" where
  "is_space c = (of_char c \<in> set [9, 10, 11, 12, 13, 28, 29, 30, 31, 32 :: nat])"

definition is_digit :: "char \<Rightarrow> bool" where
  "is_digit c = (48 \<le> (of_char c :: nat) \<and> (of_char c :: nat) \<le> 57)"

definition isnumeric :: "string \<Rightarrow> bool" where
  "isnumeric s = (s \<noteq> [] \<and> list_all is_digit s)"

text \<open>
  \<open>s.split(maxsplit=n)\<close>: at most \<open>n\<close> splits; what is left after them is the last
  element, without its leading white space.
\<close>

function split_ws :: "nat \<Rightarrow> string \<Rightarrow> string list" where
  "split_ws maxsplit s =
     (let s1 = dropWhile is_space s in
      if s1 = [] then []
      else if maxsplit = 0 then [s1]
      else takeWhile (\<lambda>c. \<not> is_space c) s1 #
           split_ws (maxsplit - 1) (dropWhile (\<lambda>c. \<not> is_space c) s1))"
  by pat_completeness auto
termination
proof (relation "measure (\<lambda>(maxsplit, s). length s)")
  show "wf (measure (\<lambda>(maxsplit, s). length s))" by simp
next
  fix maxsplit :: nat and s s1 :: string
  assume s1: "s1 = dropWhile is_space s" and ne: "s1 \<noteq> []"
  have "length (dropWhile (\<lambda>c. \<not> is_space c) s1) < length s1"
  proof (cases s1)
    case Nil
    then show ?thesis using ne by simp
  next
    case (Cons c cs)
    have "\<not> is_space (hd s1)"
      using ne hd_dropWhile [of is_space s] unfolding s1 by simp
    then have "\<not> is_space c" by (simp add: Cons)
    then show ?thesis using Cons length_dropWhile_le [of "\<lambda>c. \<not> is_space c" cs] by simp
  qed
  also have "\<dots> \<le> length s" using s1 length_dropWhile_le [of is_space s] by simp
  finally show "((maxsplit - 1, dropWhile (\<lambda>c. \<not> is_space c) s1), (maxsplit, s)) \<in> measure (\<lambda>(maxsplit, s). length s)"
    by simp
qed

declare split_ws.simps [simp del]

fun process_has_child :: "string list \<Rightarrow> bool" where
  "process_has_child [] = False"
| "process_has_child (children_file_contents # task_dirs) =
     (if children_file_contents \<noteq> [] then True else process_has_child task_dirs)"

text \<open>
  The second field of a \<open>stat\<close> file is the command name in parentheses, which the slice
  \<open>[1:-1]\<close> removes; a file with fewer than two fields raises \<open>IndexError\<close>.
\<close>

fun proc_has_process_command :: "string \<Rightarrow> (string \<times> string option) list \<Rightarrow> py_exn + bool" where
  "proc_has_process_command process_command [] = Inr False"
| "proc_has_process_command process_command ((name, stat_file) # proc_items) =
     (if \<not> isnumeric name then proc_has_process_command process_command proc_items
      else
        case stat_file of
          None \<Rightarrow> proc_has_process_command process_command proc_items
        | Some stat_file_data \<Rightarrow>
            (case split_ws 2 stat_file_data of
               _ # comm # _ \<Rightarrow>
                 if process_command = butlast (tl comm) then Inr True
                 else proc_has_process_command process_command proc_items
             | _ \<Rightarrow> Inl IndexError))"

subsection \<open>Liveness watcher: \<open>termninator_watcher\<close>\<close>

definition is_time_to_termniate :: "helper \<Rightarrow> proc_view \<Rightarrow> py_exn + bool" where
  "is_time_to_termniate h view =
     (case terminator_look_for_command h of
        None \<Rightarrow> Inr (\<not> process_has_child (task_children view))
      | Some command \<Rightarrow>
          (case proc_has_process_command command (proc_entries view) of
             Inl e \<Rightarrow> Inl e
           | Inr found \<Rightarrow> Inr (\<not> found)))"

text \<open>
  The only point where the watcher is suspended is its \<open>sleep\<close>, so that is where a
  cancellation reaches it. The script says for each \<open>sleep\<close> whether it ended in
  \<open>CancelledError\<close> or in time, and then what the poll finds.
\<close>

datatype sleep_result = Cancelled | Woke proc_view

datatype watcher_step = Sleep nat | Create_task_stop_async

fun termninator_watcher :: "helper \<Rightarrow> sleep_result list \<Rightarrow> watcher_step list \<times> outcome" where
  "termninator_watcher h [] = ([], Pending)"
| "termninator_watcher h (Cancelled # script) = ([Sleep (terminator_pool_timer h)], Returned)"
| "termninator_watcher h (Woke view # script) =
     (case is_time_to_termniate h view of
        Inl e \<Rightarrow> ([Sleep (terminator_pool_timer h)], Raises e)
      | Inr True \<Rightarrow> ([Sleep (terminator_pool_timer h), Create_task_stop_async], Returned)
      | Inr False \<Rightarrow>
          (let (tr, out) = termninator_watcher h script
           in (Sleep (terminator_pool_timer h) # tr, out)))"

subsection \<open>Graceful shutdown: \<open>stop_async\<close>\<close>





subsection \<open>Sample inputs\<close>

text \<open>
  A library to run the model on. Its \<open>json.dumps\<close> writes a value the way Python does
  with the default separators and \<open>ensure_ascii\<close>, a character standing for the code
  point of its number. Its \<open>json.loads\<close> knows the lines of four objects only and
  rejects every other line; text is ASCII, so encoding and decoding change nothing.
\<close>

definition hex_digit :: "nat \<Rightarrow> char" where
  "hex_digit n = ''0123456789abcdef'' ! (n mod 16)"

definition escape_char :: "char \<Rightarrow> string" where
  "escape_char c =
     (let n = (of_char c :: nat) in
      if n = 34 then [CHR 0x5C, CHR 0x22]
      else if n = 92 then [CHR 0x5C, CHR 0x5C]
      else if n = 10 then [CHR 0x5C, CHR ''n'']
      else if n = 13 then [CHR 0x5C, CHR ''r'']
      else if n = 9 then [CHR 0x5C, CHR ''t'']
      else if n = 8 then [CHR 0x5C, CHR ''b'']
      else if n = 12 then [CHR 0x5C, CHR ''f'']
      else if n < 32 \<or> 126 < n then
        [CHR 0x5C, CHR ''u'', CHR ''0'', CHR ''0'', hex_digit (n div 16), hex_digit n]
      else [c])"

definition quote :: "string \<Rightarrow> string" where
  "quote s = [CHR 0x22] @ concat (map escape_char s) @ [CHR 0x22]"

fun dec_nat :: "nat \<Rightarrow> string" where
  "dec_nat n = (if n < 10 then [char_of (48 + n)] else dec_nat (n div 10) @ [char_of (48 + n mod 10)])"

declare dec_nat.simps [simp del]

definition dec_int :: "int \<Rightarrow> string" where
  "dec_int i = (if i < 0 then ''-'' @ dec_nat (nat (- i)) else dec_nat (nat i))"

fun join_comma :: "string list \<Rightarrow> string" where
  "join_comma [] = []"
| "join_comma [x] = x"
| "join_comma (x # y # ys) = x @ '', '' @ join_comma (y # ys)"

fun py_json_dumps :: "json \<Rightarrow> string" where
  "py_json_dumps JNull = ''null''"
| "py_json_dumps (JBool b) = (if b then ''true'' else ''false'')"
| "py_json_dumps (JInt i) = dec_int i"
| "py_json_dumps (JStr s) = quote s"
| "py_json_dumps (JList vs) = ''['' @ join_comma (map py_json_dumps vs) @ '']''"
| "py_json_dumps (JDict kvs) =
     ''{'' @ join_comma (map (\<lambda>(k, v). quote k @ '': '' @ py_json_dumps v) kvs) @ ''}''"

definition sample_objects :: "json list" where
  "sample_objects =
     [JDict [(''id'', JNull), (''method'', JStr ''ping''), (''params'', JNull)],
      JDict [(''id'', JStr ''7''), (''method'', JStr ''ping''), (''params'', JNull)],
      JDict [(''id'', JStr ''7''), (''method'', JStr ''ping'')],
      JDict [(''id'', JStr ''7''), (''method'', JStr ''run''),
             (''params'', JDict [(''args_to_run'', JList [JStr ''true''])])]]"

definition sample_loads :: "bytes \<Rightarrow> py_exn + json" where
  "sample_loads data =
     (case find (\<lambda>v. py_json_dumps v @ ''\<newline>'' = data) sample_objects of
        Some v \<Rightarrow> Inr v
      | None \<Rightarrow> Inl (Raised ''JSONDecodeError''))"

definition sample_lib :: python_lib where
  "sample_lib = \<lparr>json_dumps = py_json_dumps, json_loads = sample_loads,
                 str_encode = (\<lambda>s. s), bytes_decode = Inr\<rparr>"

text \<open>Three request lines: a ping, a ping without \<open>params\<close>, a run without \<open>wait_response\<close>.\<close>

definition ping_line :: bytes where
  \<open>ping_line = ''{"id": null, "method": "ping", "params": null}\<newline>''\<close>

definition ping_without_params_line :: bytes where
  \<open>ping_without_params_line = ''{"id": "7", "method": "ping"}\<newline>''\<close>

definition run_line :: bytes where
  \<open>run_line = ''{"id": "7", "method": "run", "params": {"args_to_run": ["true"]}}\<newline>''\<close>

text \<open>
  A process tree with the single child 7, which no signal ends, and one with the children
  7 and 8, of which 8 is gone after the first round of signals.
\<close>

definition stubborn_child :: "nat \<Rightarrow> pid list list" where
  "stubborn_child n = [[7]]"

definition two_children :: "nat \<Rightarrow> pid list list" where
  "two_children n = (if n = 1 then [[7, 8]] else [[7]])"

text \<open>A helper that is serving, with its watcher asleep and no command to look for.\<close>

definition running_helper :: helper where
  "running_helper =
     \<lparr>startup_args = [''/bin/sh''], server = Some Server_listening, terminated = False,
      terminator_look_for_command = None, terminator_pool_timer = 5,
      termninator_watcher_task = Some Task_pending, ready_event = True\<rparr>"

text \<open>What a poll finds while the child 42 runs, and after it is gone.\<close>

definition view_with_child :: proc_view where
  "view_with_child =
     \<lparr>task_children = [''42 ''],
      proc_entries = [(''1'', Some ''1 (bubblejail-help) S 0 1 1''), (''self'', None),
                      (''42'', Some ''42 (bash) S 1 42 42'')]\<rparr>"

definition view_without_child :: proc_view where
  "view_without_child =
     \<lparr>task_children = [''''],
      proc_entries = [(''1'', Some ''1 (bubblejail-help) S 0 1 1''), (''self'', None)]\<rparr>"


section \<open>Properties\<close>

subsection \<open>Protocol codec and request model\<close>

text \<open>
  The items of the decoded object after \<open>id\<close> has been renamed, and the decoder as a
  function of the object that \<open>json.loads\<close> returns.
\<close>

lemma map_of_renamed:
  "map_of (AList.delete ''id'' (AList.update ''request_id'' v d)) k =
     (if k = ''id'' then None else if k = ''request_id'' then Some v else map_of d k)"
  by (simp add: AList.delete_conv' AList.update_conv')

lemma request_selector_dict:
  "json_loads lib data = Inr (JDict d) \<Longrightarrow>
   request_selector lib data =
     (case map_of d ''id'' of
        None \<Rightarrow> Inl (KeyError ''id'')
      | Some rid \<Rightarrow>
     (case map_of d ''method'' of
        None \<Rightarrow> Inl (KeyError ''method'')
      | Some m \<Rightarrow>
     (case map_of d ''params'' of
        None \<Rightarrow> Inl (KeyError ''params'')
      | Some ps \<Rightarrow>
          if m = JStr ''ping'' then Inr (RequestPing rid)
          else if m = JStr ''run'' then RequestRun_init rid ps
          else Inl TypeError)))"
  by (simp add: request_selector_def json_byte_line_to_dict_def map_of_renamed split: option.splits)

lemma RequestRun_init_no_KeyError: "RequestRun_init rid ps \<noteq> Inl (KeyError k)"
  by (auto simp: RequestRun_init_def split: json.splits option.splits)

text \<open>
  The sample library on the sample lines.
\<close>

lemma sample_loads_ping_line:
  "json_loads sample_lib ping_line =
     Inr (JDict [(''id'', JNull), (''method'', JStr ''ping''), (''params'', JNull)])"
  by code_simp

lemma sample_loads_ping_without_params_line:
  "json_loads sample_lib ping_without_params_line =
     Inr (JDict [(''id'', JStr ''7''), (''method'', JStr ''ping'')])"
  by code_simp

lemma sample_loads_run_line:
  "json_loads sample_lib run_line =
     Inr (JDict [(''id'', JStr ''7''), (''method'', JStr ''run''),
                 (''params'', JDict [(''args_to_run'', JList [JStr ''true''])])])"
  by code_simp

lemma sample_ping_encoding: "to_json_byte_line sample_lib (RequestPing JNull) = ping_line"
  by code_simp

lemma sample_pong:
  \<open>str_encode sample_lib
     (json_dumps sample_lib (JDict [(''id'', JNull), (''result'', JList [JStr ''pong''])]) @ ''\<newline>'') =
   ''{"id": null, "result": ["pong"]}\<newline>''\<close>
  by code_simp

lemma lines_not_empty: "ping_line \<noteq> []" "ping_without_params_line \<noteq> []" "run_line \<noteq> []"
  by (simp_all add: ping_line_def ping_without_params_line_def run_line_def)

lemma client_handler_eof: "client_handler lib [([], os_process)] = ([Readline [], Writer_close, Writer_wait_closed], Returned)"
  by simp

text \<open>
  Claim C6. Whatever the request id is (\<open>None\<close> too), the response to a ping is the
  line of the object with the two items \<open>id\<close>, the id of the request unchanged, and
  \<open>result\<close>, the list \<open>["pong"]\<close>; and that line is what the connection handler
  writes and drains for a line that decodes to a ping, before it reads on.
\<close>

theorem ping_response:
  "response_ping lib (RequestPing rid) =
     str_encode lib (json_dumps lib (JDict [(''id'', rid), (''result'', JList [JStr ''pong''])]) @ ''\<newline>'') \<and>
   (line \<noteq> [] \<and> request_selector lib line = Inr (RequestPing rid) \<longrightarrow>
      client_handler lib ((line, os_process) # script) =
        (Readline line #
         Writer_write (str_encode lib
           (json_dumps lib (JDict [(''id'', rid), (''result'', JList [JStr ''pong''])]) @ ''\<newline>'')) #
         Writer_drain # fst (client_handler lib script),
         snd (client_handler lib script)))"
  by (simp add: response_ping_def get_reponse_bytes_def dict_to_json_byte_line_def split_beta)

text \<open>
  On the ping line with the id \<open>null\<close>, the sample library gives the bytes of the
  response.
\<close>

theorem ping_response_witness:
  \<open>ping_line \<noteq> [] \<and> request_selector sample_lib ping_line = Inr (RequestPing JNull) \<and>
   client_handler sample_lib [(ping_line, Process []), ([], Process [])] =
     ([Readline ping_line, Writer_write ''{"id": null, "result": ["pong"]}\<newline>'', Writer_drain,
       Readline [], Writer_close, Writer_wait_closed], Returned)\<close>
proof -
  have sel: "request_selector sample_lib ping_line = Inr (RequestPing JNull)"
    by (simp add: request_selector_dict [OF sample_loads_ping_line])
  from ping_response [of sample_lib JNull ping_line "Process []" "[([], Process [])]"] sel
  show ?thesis
    by (simp only: lines_not_empty sample_pong client_handler_eof fst_conv snd_conv simp_thms)
qed

text \<open>
  The sample library gives back the object of a ping request from the line that it
  writes for it, with the id \<open>null\<close> and with a string as the id.
\<close>

lemma sample_round_trip_null:
  "json_loads sample_lib
     (str_encode sample_lib
        (json_dumps sample_lib (JDict [(''id'', JNull), (''method'', JStr ''ping''), (''params'', JNull)]) @
         ''\<newline>'')) =
   Inr (JDict [(''id'', JNull), (''method'', JStr ''ping''), (''params'', JNull)])"
  by code_simp

lemma sample_round_trip_str:
  "json_loads sample_lib
     (str_encode sample_lib
        (json_dumps sample_lib (JDict [(''id'', JStr ''7''), (''method'', JStr ''ping''), (''params'', JNull)]) @
         ''\<newline>'')) =
   Inr (JDict [(''id'', JStr ''7''), (''method'', JStr ''ping''), (''params'', JNull)])"
  by code_simp

text \<open>
  Claim C7. Round trip, for every request id (\<open>None\<close> too). The only hypothesis is
  about the json module: that \<open>json.loads\<close> gives back the object with the items
  \<open>id\<close>, \<open>method\<close> and \<open>params\<close> of a ping from the encoded line that \<open>json.dumps\<close>
  writes for it. Then decoding with \<open>request_selector\<close> what \<open>to_json_byte_line\<close>
  encodes of a ping request yields the same ping request, so one with the same method
  and the same request id.
\<close>

theorem ping_round_trip:
  "json_loads lib
     (str_encode lib
        (json_dumps lib (JDict [(''id'', rid), (''method'', JStr ''ping''), (''params'', JNull)]) @
         ''\<newline>'')) =
   Inr (JDict [(''id'', rid), (''method'', JStr ''ping''), (''params'', JNull)]) \<Longrightarrow>
   request_selector lib (to_json_byte_line lib (RequestPing rid)) = Inr (RequestPing rid) \<and>
   map_sum id request_method (request_selector lib (to_json_byte_line lib (RequestPing rid))) =
     Inr (request_method (RequestPing rid)) \<and>
   map_sum id request_id (request_selector lib (to_json_byte_line lib (RequestPing rid))) =
     Inr (request_id (RequestPing rid))"
proof -
  assume lib: "json_loads lib
     (str_encode lib
        (json_dumps lib (JDict [(''id'', rid), (''method'', JStr ''ping''), (''params'', JNull)]) @
         ''\<newline>'')) =
   Inr (JDict [(''id'', rid), (''method'', JStr ''ping''), (''params'', JNull)])"
  have line: "to_json_byte_line lib (RequestPing rid) =
      str_encode lib
        (json_dumps lib (JDict [(''id'', rid), (''method'', JStr ''ping''), (''params'', JNull)]) @
         ''\<newline>'')"
    by (simp add: to_json_byte_line_def dict_to_json_byte_line_def)
  have "json_loads lib (to_json_byte_line lib (RequestPing rid)) =
      Inr (JDict [(''id'', rid), (''method'', JStr ''ping''), (''params'', JNull)])"
    by (simp only: line lib)
  then have "request_selector lib (to_json_byte_line lib (RequestPing rid)) = Inr (RequestPing rid)"
    by (simp add: request_selector_dict)
  then show ?thesis by simp
qed

theorem ping_round_trip_witness:
  "json_loads sample_lib
     (str_encode sample_lib
        (json_dumps sample_lib (JDict [(''id'', JNull), (''method'', JStr ''ping''), (''params'', JNull)]) @
         ''\<newline>'')) =
   Inr (JDict [(''id'', JNull), (''method'', JStr ''ping''), (''params'', JNull)]) \<and>
   request_selector sample_lib (to_json_byte_line sample_lib (RequestPing JNull)) = Inr (RequestPing JNull) \<and>
   json_loads sample_lib
     (str_encode sample_lib
        (json_dumps sample_lib (JDict [(''id'', JStr ''7''), (''method'', JStr ''ping''), (''params'', JNull)]) @
         ''\<newline>'')) =
   Inr (JDict [(''id'', JStr ''7''), (''method'', JStr ''ping''), (''params'', JNull)]) \<and>
   request_selector sample_lib (to_json_byte_line sample_lib (RequestPing (JStr ''7''))) =
     Inr (RequestPing (JStr ''7''))"
  using ping_round_trip [OF sample_round_trip_null] ping_round_trip [OF sample_round_trip_str]
    sample_round_trip_null sample_round_trip_str
  by (simp only: simp_thms)

text \<open>
  Claim C9. When the decoded line is an object that lacks one of the keys \<open>id\<close>,
  \<open>method\<close> and \<open>params\<close>, decoding fails with \<open>KeyError\<close> for the first of them that
  is missing, whatever the method and the other items are, a ping included; and when the
  three keys are there, no \<open>KeyError\<close> is raised.
\<close>

theorem request_selector_missing_key:
  "json_loads lib data = Inr (JDict d) \<Longrightarrow>
   (map_of d ''id'' = None \<or> map_of d ''method'' = None \<or> map_of d ''params'' = None \<longrightarrow>
      request_selector lib data =
        Inl (KeyError (if map_of d ''id'' = None then ''id''
                       else if map_of d ''method'' = None then ''method'' else ''params''))) \<and>
   (map_of d ''id'' \<noteq> None \<and> map_of d ''method'' \<noteq> None \<and> map_of d ''params'' \<noteq> None \<longrightarrow>
      (\<forall>k. request_selector lib data \<noteq> Inl (KeyError k)))"
  by (auto simp: request_selector_dict RequestRun_init_no_KeyError split: option.splits)

theorem request_selector_missing_key_witness:
  "json_loads sample_lib ping_without_params_line = Inr (JDict [(''id'', JStr ''7''), (''method'', JStr ''ping'')]) \<and>
   map_of [(''id'', JStr ''7''), (''method'', JStr ''ping'')] ''params'' = None \<and>
   request_selector sample_lib ping_without_params_line = Inl (KeyError ''params'') \<and>
   json_loads sample_lib ping_line = Inr (JDict [(''id'', JNull), (''method'', JStr ''ping''), (''params'', JNull)]) \<and>
   request_selector sample_lib ping_line \<noteq> Inl (KeyError ''params'')"
  using request_selector_missing_key [OF sample_loads_ping_without_params_line]
    request_selector_missing_key [OF sample_loads_ping_line]
    sample_loads_ping_without_params_line sample_loads_ping_line
  by simp

subsection \<open>Process executor\<close>

text \<open>
  Claim C3, as the code has it. Once the process is spawned: without a mode (the child
  inherits the streams) the executor waits for the process to exit and returns nothing;
  with \<open>PIPE\<close> it spawns with the outputs merged into one pipe, reads it to the end
  while the process runs to its exit and returns the decoded text (or raises what the
  decoding raises); with \<open>DEVNULL\<close> it returns nothing right after the spawn, without
  waiting for the exit.
\<close>

theorem run_command_modes:
  "run_command lib (Process stdout_data) args None =
     ([Create_subprocess_exec args None None None, Process_wait], Inr None) \<and>
   run_command lib (Process stdout_data) args (Some PIPE) =
     ([Create_subprocess_exec args (Some PIPE) (Some STDOUT) (Some PIPE), Process_communicate],
      (case bytes_decode lib stdout_data of Inl e \<Rightarrow> Inl e | Inr text \<Rightarrow> Inr (Some text))) \<and>
   run_command lib (Process stdout_data) args (Some DEVNULL) =
     ([Create_subprocess_exec args (Some DEVNULL) (Some DEVNULL) (Some DEVNULL)], Inr None)"
  by (simp add: run_command_def PIPE_def DEVNULL_def split: sum.splits)

theorem run_command_modes_witness:
  "run_command sample_lib (Process ''hello'') (JList [JStr ''echo'', JStr ''hello'']) (Some PIPE) =
     ([Create_subprocess_exec (JList [JStr ''echo'', JStr ''hello'']) (Some PIPE) (Some STDOUT) (Some PIPE),
       Process_communicate], Inr (Some ''hello''))"
  using run_command_modes [of sample_lib "''hello''" "JList [JStr ''echo'', JStr ''hello'']"]
  by (simp add: sample_lib_def)

text \<open>
  Claim C3 as stated fails for the discarded mode: the executor returns after the spawn
  alone, with no step that waits for the exit.
\<close>

theorem run_command_devnull_does_not_wait:
  "\<not> list_ex awaits_exit
       (fst (run_command sample_lib (Process ''hello'') (JList [JStr ''echo'', JStr ''hello'']) (Some DEVNULL))) \<and>
   snd (run_command sample_lib (Process ''hello'') (JList [JStr ''echo'', JStr ''hello'']) (Some DEVNULL)) = Inr None"
  by (simp add: run_command_def PIPE_def DEVNULL_def)

subsection \<open>Connection handler\<close>

text \<open>
  Claim C10. A run request whose \<open>params\<close> object has \<open>args_to_run\<close> as its only key
  is accepted by the decoder with \<open>wait_response\<close> being \<open>False\<close>; the handler then
  spawns the process with inherited streams, waits for its exit, writes nothing and reads
  the next line (or raises what the spawn raises).
\<close>

theorem run_without_wait_response:
  "json_loads lib line = Inr (JDict d) \<and>
   map_of d ''id'' = Some rid \<and> map_of d ''method'' = Some (JStr ''run'') \<and>
   map_of d ''params'' = Some (JDict kw) \<and>
   map_of kw ''args_to_run'' = Some args \<and> (\<forall>kv \<in> set kw. fst kv = ''args_to_run'') \<longrightarrow>
     request_selector lib line = Inr (RequestRun rid args (JBool False)) \<and>
     (line \<noteq> [] \<longrightarrow>
        client_handler lib ((line, Process stdout_data) # script) =
          (Readline line # Executor (Create_subprocess_exec args None None None) #
           Executor Process_wait # fst (client_handler lib script),
           snd (client_handler lib script)) \<and>
        client_handler lib ((line, Spawn_raises e) # script) =
          ([Readline line, Executor (Create_subprocess_exec args None None None)], Raises e))"
proof (intro impI)
  assume a: "json_loads lib line = Inr (JDict d) \<and>
   map_of d ''id'' = Some rid \<and> map_of d ''method'' = Some (JStr ''run'') \<and>
   map_of d ''params'' = Some (JDict kw) \<and>
   map_of kw ''args_to_run'' = Some args \<and> (\<forall>kv \<in> set kw. fst kv = ''args_to_run'')"
  then have no_wait: "map_of kw ''wait_response'' = None"
    by (cases "map_of kw ''wait_response''") (auto dest!: map_of_SomeD)
  have keys: "\<not> list_ex (\<lambda>kv. fst kv \<notin> set [''args_to_run'', ''wait_response'']) kw"
    using a by (auto simp: list_ex_iff)
  have init: "RequestRun_init rid (JDict kw) = Inr (RequestRun rid args (JBool False))"
    using a keys no_wait by (simp add: RequestRun_init_def)
  have sel: "request_selector lib line = Inr (RequestRun rid args (JBool False))"
    using a init by (simp add: request_selector_dict)
  show "request_selector lib line = Inr (RequestRun rid args (JBool False)) \<and>
     (line \<noteq> [] \<longrightarrow>
        client_handler lib ((line, Process stdout_data) # script) =
          (Readline line # Executor (Create_subprocess_exec args None None None) #
           Executor Process_wait # fst (client_handler lib script),
           snd (client_handler lib script)) \<and>
        client_handler lib ((line, Spawn_raises e) # script) =
          ([Readline line, Executor (Create_subprocess_exec args None None None)], Raises e))"
    using sel by (simp add: run_command_def split_beta)
qed

theorem run_without_wait_response_witness:
  "json_loads sample_lib run_line =
     Inr (JDict [(''id'', JStr ''7''), (''method'', JStr ''run''),
                 (''params'', JDict [(''args_to_run'', JList [JStr ''true''])])]) \<and>
   run_line \<noteq> [] \<and>
   request_selector sample_lib run_line = Inr (RequestRun (JStr ''7'') (JList [JStr ''true'']) (JBool False)) \<and>
   client_handler sample_lib [(run_line, Process []), ([], Process [])] =
     ([Readline run_line, Executor (Create_subprocess_exec (JList [JStr ''true'']) None None None),
       Executor Process_wait, Readline [], Writer_close, Writer_wait_closed], Returned)"
  using run_without_wait_response
    [where lib = sample_lib and line = run_line and rid = "JStr ''7''" and args = "JList [JStr ''true'']"
       and kw = "[(''args_to_run'', JList [JStr ''true''])]"
       and d = "[(''id'', JStr ''7''), (''method'', JStr ''run''),
                 (''params'', JDict [(''args_to_run'', JList [JStr ''true''])])]"
       and stdout_data = "[]" and script = "[([], Process [])]"]
    sample_loads_run_line lines_not_empty(3)
  by (simp del: client_handler.simps add: client_handler_eof)

subsection \<open>Reaper\<close>

lemma handle_children_still_looping:
  "list_all is_reaped ws \<Longrightarrow> handle_children ws = (map Waitpid ws, False)"
  by (induction ws rule: handle_children.induct) (auto simp: split_beta Let_def)

lemma handle_children_ends:
  "\<not> is_reaped e \<Longrightarrow> handle_children (e # rest) = ([Waitpid e], True)"
  by (cases e) auto

text \<open>
  Claim C8. On exit records followed by a result that is not one, be it pid 0 (no exited
  child is pending) or \<open>ChildProcessError\<close> (no children at all), the reaper calls
  \<open>waitpid\<close> once for each record and once more, and then returns; it raises nothing,
  it leaves later results alone, and its only steps are those calls.
\<close>

theorem handle_children_returns:
  "list_all is_reaped recs \<and> \<not> is_reaped e \<longrightarrow>
     handle_children (recs @ e # rest) = (map Waitpid (recs @ [e]), True)"
proof (induction recs)
  case Nil
  then show ?case by (simp add: handle_children_ends)
next
  case (Cons r recs)
  show ?case
  proof (cases r)
    case (Wait_returns exit_pid exit_code)
    then show ?thesis using Cons by (auto simp: split_beta Let_def)
  next
    case ChildProcessError
    then show ?thesis by simp
  qed
qed

theorem handle_children_returns_witness:
  "list_all is_reaped [Wait_returns 11 0, Wait_returns 12 256] \<and> \<not> is_reaped ChildProcessError \<and>
   \<not> is_reaped (Wait_returns 0 0) \<and>
   handle_children ([Wait_returns 11 0, Wait_returns 12 256] @ ChildProcessError # [Wait_returns 13 0]) =
     (map Waitpid ([Wait_returns 11 0, Wait_returns 12 256] @ [ChildProcessError]), True) \<and>
   handle_children ([Wait_returns 11 0, Wait_returns 12 256] @ Wait_returns 0 0 # []) =
     (map Waitpid ([Wait_returns 11 0, Wait_returns 12 256] @ [Wait_returns 0 0]), True)"
  using handle_children_returns [of "[Wait_returns 11 0, Wait_returns 12 256]" ChildProcessError "[Wait_returns 13 0]"]
    handle_children_returns [of "[Wait_returns 11 0, Wait_returns 12 256]" "Wait_returns 0 0" "[]"]
  by simp

subsection \<open>Forced terminator\<close>


text \<open>What one round of signals sends, by the value of the counter.\<close>

lemma signal_pids_kill:
  "(p, SIGKILL) \<in> set (snd (signal_pids c t ps)) \<longleftrightarrow> 20 < c \<and> p \<in> set ps"
  by (induction ps arbitrary: t) (auto simp: split_beta Let_def)

lemma signal_pids_term:
  "(p, SIGTERM) \<in> set (snd (signal_pids c t ps)) \<longleftrightarrow> c \<le> 20 \<and> p \<in> set ps \<and> p \<notin> t"
  by (induction ps arbitrary: t) (auto simp: split_beta Let_def)

lemma signal_pids_termed:
  "fst (signal_pids c t ps) = (if 20 < c then t else t \<union> set ps)"
  by (induction ps arbitrary: t) (auto simp: split_beta Let_def)

lemma signal_pids_count0:
  "p \<in> t \<Longrightarrow> count_list (snd (signal_pids c t ps)) (p, SIGTERM) = 0"
  by (induction ps arbitrary: t) (auto simp: split_beta Let_def)

lemma signal_pids_count1:
  "count_list (snd (signal_pids c t ps)) (p, SIGTERM) \<le> 1"
  by (induction ps arbitrary: t) (auto simp: split_beta Let_def signal_pids_count0)

lemma signal_pids_count_in:
  "p \<notin> fst (signal_pids c t ps) \<Longrightarrow> count_list (snd (signal_pids c t ps)) (p, SIGTERM) = 0"
  by (induction ps arbitrary: t) (auto simp: split_beta Let_def signal_pids_termed split: if_splits)

lemma signal_task_dirs_kill:
  "(p, SIGKILL) \<in> set (snd (signal_task_dirs c t ds)) \<longleftrightarrow> 20 < c \<and> p \<in> set (concat ds)"
  by (induction ds arbitrary: t) (auto simp: split_beta Let_def signal_pids_kill)

lemma signal_task_dirs_termed:
  "fst (signal_task_dirs c t ds) = (if 20 < c then t else t \<union> set (concat ds))"
  by (induction ds arbitrary: t) (auto simp: split_beta Let_def signal_pids_termed)

lemma signal_task_dirs_term:
  "(p, SIGTERM) \<in> set (snd (signal_task_dirs c t ds)) \<longleftrightarrow> c \<le> 20 \<and> p \<in> set (concat ds) \<and> p \<notin> t"
  by (induction ds arbitrary: t) (auto simp: split_beta Let_def signal_pids_term signal_pids_termed)

lemma signal_task_dirs_count0:
  "p \<in> t \<Longrightarrow> count_list (snd (signal_task_dirs c t ds)) (p, SIGTERM) = 0"
  by (induction ds arbitrary: t) (auto simp: split_beta Let_def signal_pids_count0 signal_pids_termed)

lemma signal_task_dirs_count1:
  "count_list (snd (signal_task_dirs c t ds)) (p, SIGTERM) \<le> 1"
proof (induction ds arbitrary: t)
  case Nil
  then show ?case by simp
next
  case (Cons d ds)
  show ?case
  proof (cases "p \<in> fst (signal_pids c t d)")
    case True
    then show ?thesis
      using signal_pids_count1 [of c t d p]
      by (simp add: split_beta Let_def signal_task_dirs_count0)
  next
    case False
    then show ?thesis
      using Cons.IH [of "fst (signal_pids c t d)"]
      by (simp add: split_beta Let_def signal_pids_count_in)
  qed
qed

lemma signal_task_dirs_count_in:
  "p \<notin> fst (signal_task_dirs c t ds) \<Longrightarrow> count_list (snd (signal_task_dirs c t ds)) (p, SIGTERM) = 0"
  by (induction ds arbitrary: t) (auto simp: split_beta Let_def signal_pids_count_in signal_pids_termed signal_task_dirs_termed split: if_splits)

lemma signal_all_children_counter:
  "signal_counter (fst (signal_all_children proc st)) = Suc (signal_counter st)"
  by (simp add: signal_all_children_def split_beta Let_def)

lemma signal_all_children_termed:
  "pids_sigtermed st \<subseteq> pids_sigtermed (fst (signal_all_children proc st))"
  by (auto simp: signal_all_children_def split_beta Let_def signal_task_dirs_termed)

lemma signal_all_children_kill:
  "(p, SIGKILL) \<in> set (snd (signal_all_children proc st)) \<longleftrightarrow>
     20 \<le> signal_counter st \<and> p \<in> set (concat (proc (Suc (signal_counter st))))"
  by (auto simp: signal_all_children_def split_beta Let_def signal_task_dirs_kill)

lemma signal_all_children_term:
  "(p, SIGTERM) \<in> set (snd (signal_all_children proc st)) \<longleftrightarrow>
     signal_counter st < 20 \<and> p \<in> set (concat (proc (Suc (signal_counter st)))) \<and> p \<notin> pids_sigtermed st"
  by (auto simp: signal_all_children_def split_beta Let_def signal_task_dirs_term)

lemma signal_all_children_count0:
  "p \<in> pids_sigtermed st \<Longrightarrow> count_list (snd (signal_all_children proc st)) (p, SIGTERM) = 0"
  by (simp add: signal_all_children_def split_beta Let_def signal_task_dirs_count0)

lemma signal_all_children_count1:
  "count_list (snd (signal_all_children proc st)) (p, SIGTERM) \<le> 1"
  using signal_task_dirs_count1 [of "Suc (signal_counter st)" "pids_sigtermed st" "proc (Suc (signal_counter st))" p]
  by (simp add: signal_all_children_def split_beta Let_def)

lemma signal_all_children_count_in:
  "p \<notin> pids_sigtermed (fst (signal_all_children proc st)) \<Longrightarrow>
     count_list (snd (signal_all_children proc st)) (p, SIGTERM) = 0"
  by (simp add: signal_all_children_def split_beta Let_def signal_task_dirs_count_in)

lemma reap_loop_length:
  "length (broadcasts (fst (reap_loop proc st ws))) = failed_attempts ws"
proof (induction proc st ws rule: reap_loop.induct)
  case (3 proc st pid_reaped status ws)
  show ?case
  proof (cases "pid_reaped = 0")
    case True
    from "3.IH"(1) [OF True refl prod.collapse] show ?thesis using True
      by (simp add: split_beta Let_def)
  next
    case False
    from "3.IH"(2) [OF False] show ?thesis using False
      by (simp add: split_beta Let_def)
  qed
qed simp_all

lemma reap_loop_kill:
  "k < failed_attempts ws \<Longrightarrow>
   (p, SIGKILL) \<in> set (broadcasts (fst (reap_loop proc st ws)) ! k) \<longleftrightarrow>
     20 \<le> signal_counter st + k \<and> p \<in> set (concat (proc (Suc (signal_counter st + k))))"
proof (induction proc st ws arbitrary: k rule: reap_loop.induct)
  case (3 proc st pid_reaped status ws)
  show ?case
  proof (cases "pid_reaped = 0")
    case True
    show ?thesis
    proof (cases k)
      case 0
      then show ?thesis using True
        by (simp add: split_beta Let_def signal_all_children_kill)
    next
      case (Suc j)
      then have "j < failed_attempts ws" using "3.prems" True by simp
      from "3.IH"(1) [OF True refl prod.collapse this] show ?thesis using True Suc
        by (simp add: split_beta Let_def signal_all_children_counter)
    qed
  next
    case False
    then have "k < failed_attempts ws" using "3.prems" by simp
    from "3.IH"(2) [OF False this] show ?thesis using False
      by (simp add: split_beta Let_def)
  qed
qed simp_all

lemma reap_loop_term:
  "k < failed_attempts ws \<Longrightarrow>
   (p, SIGTERM) \<in> set (broadcasts (fst (reap_loop proc st ws)) ! k) \<Longrightarrow>
     signal_counter st + k < 20 \<and> p \<notin> pids_sigtermed st"
proof (induction proc st ws arbitrary: k rule: reap_loop.induct)
  case (3 proc st pid_reaped status ws)
  show ?case
  proof (cases "pid_reaped = 0")
    case True
    show ?thesis
    proof (cases k)
      case 0
      then show ?thesis using True "3.prems"(2)
        by (simp add: split_beta Let_def signal_all_children_term)
    next
      case (Suc j)
      then have j: "j < failed_attempts ws" using "3.prems" True by simp
      have "(p, SIGTERM) \<in> set (broadcasts (fst (reap_loop proc (fst (signal_all_children proc st)) ws)) ! j)"
        using "3.prems"(2) True Suc by (simp add: split_beta Let_def)
      from "3.IH"(1) [OF True refl prod.collapse j this] show ?thesis using True Suc
        signal_all_children_termed [of st proc]
        by (auto simp add: split_beta Let_def signal_all_children_counter prod_eq_iff)
    qed
  next
    case False
    then have k: "k < failed_attempts ws" using "3.prems" by simp
    have "(p, SIGTERM) \<in> set (broadcasts (fst (reap_loop proc st ws)) ! k)"
      using "3.prems"(2) False by (simp add: split_beta Let_def)
    from "3.IH"(2) [OF False k this] show ?thesis .
  qed
qed simp_all

lemma reap_loop_count0:
  "p \<in> pids_sigtermed st \<Longrightarrow>
   count_list (concat (broadcasts (fst (reap_loop proc st ws)))) (p, SIGTERM) = 0"
proof (induction proc st ws rule: reap_loop.induct)
  case (3 proc st pid_reaped status ws)
  show ?case
  proof (cases "pid_reaped = 0")
    case True
    have "p \<in> pids_sigtermed (fst (signal_all_children proc st))"
      using "3.prems" signal_all_children_termed [of st proc] by blast
    from "3.IH"(1) [OF True refl prod.collapse this] show ?thesis using True "3.prems"
      by (simp add: split_beta Let_def signal_all_children_count0)
  next
    case False
    from "3.IH"(2) [OF False "3.prems"] show ?thesis using False
      by (simp add: split_beta Let_def)
  qed
qed simp_all

lemma reap_loop_count1:
  "count_list (concat (broadcasts (fst (reap_loop proc st ws)))) (p, SIGTERM) \<le> 1"
proof (induction proc st ws rule: reap_loop.induct)
  case (3 proc st pid_reaped status ws)
  show ?case
  proof (cases "pid_reaped = 0")
    case True
    show ?thesis
    proof (cases "p \<in> pids_sigtermed (fst (signal_all_children proc st))")
      case in_set: True
      then show ?thesis using True signal_all_children_count1 [of proc st p]
        by (simp add: split_beta Let_def reap_loop_count0)
    next
      case False
      then show ?thesis using True "3.IH"(1) [OF True refl prod.collapse]
        by (simp add: split_beta Let_def signal_all_children_count_in)
    qed
  next
    case False
    then show ?thesis using "3.IH"(2) by (simp add: split_beta Let_def)
  qed
qed simp_all

text \<open>The loop, one result of \<open>wait3\<close> at a time.\<close>

lemma broadcasts_append: "broadcasts (xs @ ys) = broadcasts xs @ broadcasts ys"
  by (induction xs rule: broadcasts.induct) simp_all

lemma reap_loop_not_ready:
  "reap_loop proc st (Wait_returns 0 status # ws) =
     (Wait3 (Wait_returns 0 status) # Sync_sleep 500 # Broadcast (snd (signal_all_children proc st)) #
        fst (reap_loop proc (fst (signal_all_children proc st)) ws),
      snd (reap_loop proc (fst (signal_all_children proc st)) ws))"
  by (simp add: split_beta Let_def)

lemma reap_loop_reaped:
  "pid_reaped \<noteq> 0 \<Longrightarrow>
   reap_loop proc st (Wait_returns pid_reaped status # ws) =
     (Wait3 (Wait_returns pid_reaped status) # fst (reap_loop proc st ws), snd (reap_loop proc st ws))"
  by (simp add: split_beta Let_def)

lemma reap_loop_left: "snd (reap_loop proc st ws) \<longleftrightarrow> ChildProcessError \<in> set ws"
proof (induction ws arbitrary: st)
  case Nil
  then show ?case by simp
next
  case (Cons w ws)
  show ?case
  proof (cases w)
    case (Wait_returns p s)
    then show ?thesis using Cons.IH
      by (cases "p = 0") (simp_all add: reap_loop_not_ready reap_loop_reaped del: reap_loop.simps)
  next
    case ChildProcessError
    then show ?thesis by simp
  qed
qed

lemma reap_loop_head:
  "reap_loop proc st ws = ([], False) \<or> (\<exists>r rest. fst (reap_loop proc st ws) = Wait3 r # rest)"
  by (cases "(proc, st, ws)" rule: reap_loop.cases) (auto simp: split_beta Let_def)

lemma reap_loop_decomp:
  "fst (reap_loop proc st ws) = pre @ Wait3 r # post \<Longrightarrow>
   (case r of
      ChildProcessError \<Rightarrow> post = [] \<and> snd (reap_loop proc st ws)
    | Wait_returns pid_reaped status \<Rightarrow>
        if pid_reaped = 0 then
          (\<exists>termed rest. post = Sync_sleep 500 #
              Broadcast (snd (signal_task_dirs (Suc (signal_counter st + length (broadcasts pre))) termed
                 (proc (Suc (signal_counter st + length (broadcasts pre)))))) # rest)
        else post = [] \<and> \<not> snd (reap_loop proc st ws) \<or> (\<exists>r' rest. post = Wait3 r' # rest))"
proof (induction ws arbitrary: st pre)
  case Nil
  then show ?case by simp
next
  case (Cons w ws)
  show ?case
  proof (cases w)
    case ChildProcessError
    then show ?thesis using Cons.prems by (auto simp: Cons_eq_append_conv)
  next
    case (Wait_returns p s)
    show ?thesis
    proof (cases "p = 0")
      case True
      let ?st' = "fst (signal_all_children proc st)"
      have tr: "Wait3 (Wait_returns 0 s) # Sync_sleep 500 #
                  Broadcast (snd (signal_all_children proc st)) # fst (reap_loop proc ?st' ws)
                = pre @ Wait3 r # post"
        using Cons.prems True Wait_returns by (simp add: reap_loop_not_ready del: reap_loop.simps)
      have sn: "snd (reap_loop proc st (w # ws)) = snd (reap_loop proc ?st' ws)"
        using True Wait_returns by (simp add: reap_loop_not_ready del: reap_loop.simps)
      show ?thesis
      proof (cases pre)
        case Nil
        then show ?thesis using tr
          by (auto simp: signal_all_children_def split_beta Let_def)
      next
        case (Cons x pre1)
        then obtain pre3 where pre: "pre = Wait3 (Wait_returns 0 s) # Sync_sleep 500 #
                  Broadcast (snd (signal_all_children proc st)) # pre3"
          and rest: "fst (reap_loop proc ?st' ws) = pre3 @ Wait3 r # post"
          using tr by (auto simp: Cons_eq_append_conv)
        from Cons.IH [OF rest] show ?thesis
          by (cases r) (auto simp: pre sn signal_all_children_counter split: if_splits)
      qed
    next
      case False
      have tr: "Wait3 (Wait_returns p s) # fst (reap_loop proc st ws) = pre @ Wait3 r # post"
        using Cons.prems False Wait_returns by (simp add: reap_loop_reaped del: reap_loop.simps)
      have sn: "snd (reap_loop proc st (w # ws)) = snd (reap_loop proc st ws)"
        using False Wait_returns by (simp add: reap_loop_reaped del: reap_loop.simps)
      show ?thesis
      proof (cases pre)
        case Nil
        then have "r = Wait_returns p s" "post = fst (reap_loop proc st ws)"
          using tr by simp_all
        then show ?thesis using False reap_loop_head [of proc st ws] by (auto simp: sn)
      next
        case (Cons x pre1)
        then have pre: "pre = Wait3 (Wait_returns p s) # pre1"
          and rest: "fst (reap_loop proc st ws) = pre1 @ Wait3 r # post"
          using tr by simp_all
        from Cons.IH [OF rest] show ?thesis
          by (cases r) (auto simp: pre sn split: if_splits)
      qed
    qed
  qed
qed

lemma terminate_children_unfold:
  "terminate_children proc ws =
     (Broadcast (snd (signal_all_children proc \<lparr>signal_counter = 0, pids_sigtermed = {}\<rparr>)) #
        fst (reap_loop proc (fst (signal_all_children proc \<lparr>signal_counter = 0, pids_sigtermed = {}\<rparr>)) ws) @
        (if ChildProcessError \<in> set ws then [Cancel_run_helper_task] else []),
      ChildProcessError \<in> set ws)"
  by (simp add: terminate_children_def split_beta Let_def reap_loop_left)

lemma terminate_children_broadcasts:
  "broadcasts (fst (terminate_children proc ws)) =
     snd (signal_all_children proc \<lparr>signal_counter = 0, pids_sigtermed = {}\<rparr>) #
     broadcasts (fst (reap_loop proc (fst (signal_all_children proc \<lparr>signal_counter = 0, pids_sigtermed = {}\<rparr>)) ws))"
  by (simp add: terminate_children_unfold broadcasts_append)

lemma stubborn_script: "failed_attempts (replicate n (Wait_returns 0 0)) = n"
  by (induction n) simp_all

text \<open>
  Claim C1, as the code has it. Round 0 is the first call of \<open>signal_all_children\<close>
  and round \<open>k\<close> is the call that follows the \<open>k\<close>-th failed collection attempt. There
  is one round more than failed attempts; a pid is sent SIGKILL in round \<open>k\<close> exactly
  when it is listed then and \<open>k\<close> is at least 20, that is when the counter, which is
  \<open>k + 1\<close>, exceeds 20; SIGTERM is sent in rounds before the 20th only, in round 0 to
  every pid listed, and to no pid twice. So for a child that is never reaped the rounds
  after the first 19 failed attempts send it nothing, and the round after the 20th failed
  attempt and every later one sends it SIGKILL.
\<close>

theorem terminate_children_escalation:
  "length (broadcasts (fst (terminate_children proc ws))) = Suc (failed_attempts ws) \<and>
   (\<forall>k \<le> failed_attempts ws.
      ((p, SIGKILL) \<in> set (broadcasts (fst (terminate_children proc ws)) ! k) \<longleftrightarrow>
          20 \<le> k \<and> p \<in> set (concat (proc (Suc k)))) \<and>
      ((p, SIGTERM) \<in> set (broadcasts (fst (terminate_children proc ws)) ! k) \<longrightarrow> k < 20)) \<and>
   ((p, SIGTERM) \<in> set (broadcasts (fst (terminate_children proc ws)) ! 0) \<longleftrightarrow>
      p \<in> set (concat (proc 1))) \<and>
   count_list (concat (broadcasts (fst (terminate_children proc ws)))) (p, SIGTERM) \<le> 1"
proof -
  let ?st0 = "\<lparr>signal_counter = 0, pids_sigtermed = {}\<rparr>"
  let ?st1 = "fst (signal_all_children proc ?st0)"
  let ?ks = "snd (signal_all_children proc ?st0)"
  let ?bs = "broadcasts (fst (terminate_children proc ws))"
  have bs: "?bs = ?ks # broadcasts (fst (reap_loop proc ?st1 ws))"
    by (rule terminate_children_broadcasts)
  have c1: "signal_counter ?st1 = 1"
    by (simp add: signal_all_children_counter)
  have len: "length ?bs = Suc (failed_attempts ws)"
    by (simp add: bs reap_loop_length)
  have rounds: "((p, SIGKILL) \<in> set (?bs ! k) \<longleftrightarrow> 20 \<le> k \<and> p \<in> set (concat (proc (Suc k)))) \<and>
      ((p, SIGTERM) \<in> set (?bs ! k) \<longrightarrow> k < 20)" if "k \<le> failed_attempts ws" for k
  proof (cases k)
    case 0
    then show ?thesis
      by (simp add: bs signal_all_children_kill signal_all_children_term)
  next
    case (Suc j)
    then have j: "j < failed_attempts ws" using that by simp
    show ?thesis
      using reap_loop_kill [OF j, of p proc ?st1] reap_loop_term [OF j, of p proc ?st1]
      by (auto simp: bs Suc c1)
  qed
  have first: "(p, SIGTERM) \<in> set (?bs ! 0) \<longleftrightarrow> p \<in> set (concat (proc 1))"
    by (simp add: bs signal_all_children_term)
  have cnt: "count_list (concat ?bs) (p, SIGTERM) \<le> 1"
  proof (cases "p \<in> pids_sigtermed ?st1")
    case True
    then show ?thesis using signal_all_children_count1 [of proc ?st0 p]
      by (simp add: bs reap_loop_count0)
  next
    case False
    then show ?thesis using reap_loop_count1 [of proc ?st1 ws p]
      by (simp add: bs signal_all_children_count_in)
  qed
  from len rounds first cnt show ?thesis by blast
qed

theorem terminate_children_escalation_witness:
  "(19::nat) \<le> failed_attempts (replicate 21 (Wait_returns 0 0)) \<and>
   (20::nat) \<le> failed_attempts (replicate 21 (Wait_returns 0 0)) \<and>
   (7, SIGKILL) \<notin> set (broadcasts (fst (terminate_children stubborn_child (replicate 21 (Wait_returns 0 0)))) ! 19) \<and>
   (7, SIGKILL) \<in> set (broadcasts (fst (terminate_children stubborn_child (replicate 21 (Wait_returns 0 0)))) ! 20) \<and>
   (7, SIGTERM) \<notin> set (broadcasts (fst (terminate_children stubborn_child (replicate 21 (Wait_returns 0 0)))) ! 20)"
proof -
  let ?ws = "replicate 21 (Wait_returns 0 0)"
  have n: "failed_attempts ?ws = 21"
    by (rule stubborn_script)
  have rounds: "\<forall>k \<le> failed_attempts ?ws.
      ((7, SIGKILL) \<in> set (broadcasts (fst (terminate_children stubborn_child ?ws)) ! k) \<longleftrightarrow>
          20 \<le> k \<and> 7 \<in> set (concat (stubborn_child (Suc k)))) \<and>
      ((7, SIGTERM) \<in> set (broadcasts (fst (terminate_children stubborn_child ?ws)) ! k) \<longrightarrow> k < 20)"
    using terminate_children_escalation [of stubborn_child ?ws 7] by blast
  from rounds [rule_format, of 19] rounds [rule_format, of 20] show ?thesis
    by (simp add: n stubborn_child_def)
qed

text \<open>
  Claim C1 as stated fails: the round after the 20th failed attempt already sends
  SIGKILL.
\<close>

theorem terminate_children_kill_after_20_failures:
  "broadcasts (fst (terminate_children stubborn_child (replicate 20 (Wait_returns 0 0)))) ! 20 = [(7, SIGKILL)]"
  by code_simp

text \<open>
  Claim C2, as the code has it. The function returns, cancelling the run task as its
  last step, exactly when \<open>wait3\<close> reports that no children remain. After a \<open>wait3\<close>
  that found no child ready come the sleep of half a second and a round of signals with
  the counter one higher than in the round before. After a \<open>wait3\<close> that reaped a child
  comes the next \<open>wait3\<close> at once (or nothing, when the script ends there): no sleep,
  no round of signals.
\<close>

theorem terminate_children_outcomes:
  "(snd (terminate_children proc ws) \<longleftrightarrow> ChildProcessError \<in> set ws) \<and>
   (\<forall>pre r post. fst (terminate_children proc ws) = pre @ Wait3 r # post \<longrightarrow>
     (case r of
        ChildProcessError \<Rightarrow> post = [Cancel_run_helper_task]
      | Wait_returns pid_reaped status \<Rightarrow>
          if pid_reaped = 0 then
            (\<exists>termed rest. post = Sync_sleep 500 #
                Broadcast (snd (signal_task_dirs (Suc (length (broadcasts pre))) termed
                   (proc (Suc (length (broadcasts pre)))))) # rest)
          else post = [] \<or> (\<exists>r' rest. post = Wait3 r' # rest)))"
proof (intro conjI allI impI)
  show "snd (terminate_children proc ws) \<longleftrightarrow> ChildProcessError \<in> set ws"
    by (simp add: terminate_children_unfold)
next
  fix pre r post
  let ?st0 = "\<lparr>signal_counter = 0, pids_sigtermed = {}\<rparr>"
  let ?st1 = "fst (signal_all_children proc ?st0)"
  let ?tr = "fst (reap_loop proc ?st1 ws)"
  let ?fin = "if ChildProcessError \<in> set ws then [Cancel_run_helper_task] else []"
  assume "fst (terminate_children proc ws) = pre @ Wait3 r # post"
  then have eq: "Broadcast (snd (signal_all_children proc ?st0)) # ?tr @ ?fin = pre @ Wait3 r # post"
    by (simp add: terminate_children_unfold)
  then obtain pre1 where pre: "pre = Broadcast (snd (signal_all_children proc ?st0)) # pre1"
    and eq1: "?tr @ ?fin = pre1 @ Wait3 r # post"
    by (cases pre) auto
  have "\<exists>post1. ?tr = pre1 @ Wait3 r # post1 \<and> post = post1 @ ?fin"
    using eq1 by (auto simp: append_eq_append_conv2 Cons_eq_append_conv append_eq_Cons_conv split: if_splits)
  then obtain post1 where tr: "?tr = pre1 @ Wait3 r # post1" and post: "post = post1 @ ?fin"
    by blast
  have c1: "signal_counter ?st1 = 1"
    by (simp add: signal_all_children_counter)
  show "case r of
        ChildProcessError \<Rightarrow> post = [Cancel_run_helper_task]
      | Wait_returns pid_reaped status \<Rightarrow>
          if pid_reaped = 0 then
            (\<exists>termed rest. post = Sync_sleep 500 #
                Broadcast (snd (signal_task_dirs (Suc (length (broadcasts pre))) termed
                   (proc (Suc (length (broadcasts pre)))))) # rest)
          else post = [] \<or> (\<exists>r' rest. post = Wait3 r' # rest)"
    using reap_loop_decomp [OF tr]
    by (cases r) (auto simp: pre post c1 reap_loop_left split: if_splits)
qed

theorem terminate_children_outcomes_witness:
  "fst (terminate_children two_children [Wait_returns 8 0, Wait_returns 0 0, ChildProcessError]) =
     [Broadcast [(7, SIGTERM), (8, SIGTERM)], Wait3 (Wait_returns 8 0)] @ Wait3 (Wait_returns 0 0) #
     [Sync_sleep 500, Broadcast [], Wait3 ChildProcessError, Cancel_run_helper_task] \<and>
   (\<exists>termed rest.
      [Sync_sleep 500, Broadcast [], Wait3 ChildProcessError, Cancel_run_helper_task] =
      Sync_sleep 500 #
      Broadcast (snd (signal_task_dirs
         (Suc (length (broadcasts [Broadcast [(7, SIGTERM), (8, SIGTERM)], Wait3 (Wait_returns 8 0)]))) termed
         (two_children (Suc (length (broadcasts [Broadcast [(7, SIGTERM), (8, SIGTERM)], Wait3 (Wait_returns 8 0)])))))) #
      rest)"
proof -
  have tr: "fst (terminate_children two_children [Wait_returns 8 0, Wait_returns 0 0, ChildProcessError]) =
     [Broadcast [(7, SIGTERM), (8, SIGTERM)], Wait3 (Wait_returns 8 0)] @ Wait3 (Wait_returns 0 0) #
     [Sync_sleep 500, Broadcast [], Wait3 ChildProcessError, Cancel_run_helper_task]"
    by code_simp
  from terminate_children_outcomes [THEN conjunct2, rule_format, OF tr] tr
  show ?thesis by simp
qed

text \<open>
  Claim C2 as stated fails: after child 8 is reaped, the next step is another \<open>wait3\<close>,
  not a round of signals.
\<close>

theorem terminate_children_no_broadcast_after_reap:
  "terminate_children two_children [Wait_returns 8 0, Wait_returns 0 0] =
     ([Broadcast [(7, SIGTERM), (8, SIGTERM)], Wait3 (Wait_returns 8 0), Wait3 (Wait_returns 0 0),
       Sync_sleep 500, Broadcast []], False)"
  by code_simp

subsection \<open>Liveness watcher\<close>

lemma watcher_alive_prefix:
  "\<forall>v \<in> set alive. is_time_to_termniate h v = Inr False \<Longrightarrow>
   termninator_watcher h (map Woke alive @ script) =
     (replicate (length alive) (Sleep (terminator_pool_timer h)) @ fst (termninator_watcher h script),
      snd (termninator_watcher h script))"
  by (induction alive) (simp_all add: split_beta)

lemma watcher_fires_only_on_false_predicate:
  "Create_task_stop_async \<in> set (fst (termninator_watcher h script)) \<Longrightarrow>
   \<exists>alive view rest. script = map Woke alive @ Woke view # rest \<and>
      (\<forall>v \<in> set alive. is_time_to_termniate h v = Inr False) \<and>
      is_time_to_termniate h view = Inr True"
proof (induction script)
  case Nil
  then show ?case by simp
next
  case (Cons ev script)
  show ?case
  proof (cases ev)
    case Cancelled
    then show ?thesis using Cons.prems by simp
  next
    case (Woke view)
    show ?thesis
    proof (cases "is_time_to_termniate h view")
      case (Inl e)
      then show ?thesis using Cons.prems Woke by simp
    next
      case (Inr fire)
      show ?thesis
      proof (cases fire)
        case True
        then have "ev # script = map Woke [] @ Woke view # script \<and>
            (\<forall>v \<in> set []. is_time_to_termniate h v = Inr False) \<and>
            is_time_to_termniate h view = Inr True"
          using Inr Woke by simp
        then show ?thesis by blast
      next
        case False
        then have "Create_task_stop_async \<in> set (fst (termninator_watcher h script))"
          using Cons.prems Woke Inr by (simp add: split_beta)
        from Cons.IH [OF this] obtain alive view' rest where
          s: "script = map Woke alive @ Woke view' # rest"
          and al: "\<forall>v \<in> set alive. is_time_to_termniate h v = Inr False"
          and fi: "is_time_to_termniate h view' = Inr True"
          by blast
        have "ev # script = map Woke (view # alive) @ Woke view' # rest \<and>
            (\<forall>v \<in> set (view # alive). is_time_to_termniate h v = Inr False) \<and>
            is_time_to_termniate h view' = Inr True"
          using s al fi Woke Inr False by simp
        then show ?thesis by blast
      qed
    qed
  qed
qed

text \<open>
  Claim C5. While every poll finds work, the watcher sleeps again. When a sleep ends in
  a cancellation, the watcher returns at once and has scheduled no shutdown. When a poll
  finds the liveness predicate false, the watcher schedules \<open>stop_async\<close> and returns,
  so that is its last step. And a trace of the watcher has the scheduling step only when
  the script is of that second kind: polls that found work, then one that did not.
\<close>

theorem termninator_watcher_cancel:
  "((\<forall>v \<in> set alive. is_time_to_termniate h v = Inr False) \<longrightarrow>
      termninator_watcher h (map Woke alive @ Cancelled # rest) =
        (replicate (Suc (length alive)) (Sleep (terminator_pool_timer h)), Returned) \<and>
      (is_time_to_termniate h view = Inr True \<longrightarrow>
         termninator_watcher h (map Woke alive @ Woke view # rest) =
           (replicate (Suc (length alive)) (Sleep (terminator_pool_timer h)) @ [Create_task_stop_async],
            Returned))) \<and>
   (Create_task_stop_async \<in> set (fst (termninator_watcher h script)) \<longrightarrow>
      (\<exists>alive view rest. script = map Woke alive @ Woke view # rest \<and>
         (\<forall>v \<in> set alive. is_time_to_termniate h v = Inr False) \<and>
         is_time_to_termniate h view = Inr True))"
  using watcher_fires_only_on_false_predicate [of h script]
  by (auto simp: watcher_alive_prefix replicate_append_same)

theorem termninator_watcher_cancel_witness:
  "is_time_to_termniate running_helper view_with_child = Inr False \<and>
   is_time_to_termniate running_helper view_without_child = Inr True \<and>
   termninator_watcher running_helper (map Woke [view_with_child] @ Cancelled # [Woke view_without_child]) =
     ([Sleep 5, Sleep 5], Returned) \<and>
   termninator_watcher running_helper (map Woke [view_with_child] @ Woke view_without_child # []) =
     ([Sleep 5, Sleep 5, Create_task_stop_async], Returned)"
proof -
  have alive: "\<forall>v \<in> set [view_with_child]. is_time_to_termniate running_helper v = Inr False"
    by (simp add: is_time_to_termniate_def running_helper_def view_with_child_def)
  have fire: "is_time_to_termniate running_helper view_without_child = Inr True"
    by (simp add: is_time_to_termniate_def running_helper_def view_without_child_def)
  have timer: "terminator_pool_timer running_helper = 5"
    by (simp add: running_helper_def)
  from termninator_watcher_cancel
         [where alive = "[view_with_child]" and h = running_helper
            and rest = "[Woke view_without_child]" and view = view_without_child and script = "[]"]
       termninator_watcher_cancel
         [where alive = "[view_with_child]" and h = running_helper
            and rest = "[]" and view = view_without_child and script = "[]"]
       alive fire
  show ?thesis by (simp add: timer)
qed

subsection \<open>Graceful shutdown\<close>



end
